theory Spec2Isabelle
  imports Complex_Main "HOL-Library.Sublist"
begin

section \<open>Python strings\<close>

text \<open>
  A Python \<^verbatim>\<open>str\<close> is a sequence of Unicode code points, modelled as a list of
  naturals; \<^verbatim>\<open>bytes\<close> is a list of byte values. A literal of the source is written
  \<open>str ''...''\<close>; code points beyond ASCII are spliced in as numerals.
\<close>

type_synonym pystr = "nat list"
type_synonym bytes = "nat list"

definition str :: "string \<Rightarrow> pystr" where
  "str s = map of_char s"

text \<open>
  \<^verbatim>\<open>str.isspace\<close> on one character: the code points CPython classifies as whitespace,
  which is what \<^verbatim>\<open>str.strip()\<close> without argument removes.
\<close>

definition isspace :: "nat \<Rightarrow> bool" where
  "isspace c \<longleftrightarrow>
     (9 \<le> c \<and> c \<le> 13) \<or> (28 \<le> c \<and> c \<le> 32) \<or> c = 133 \<or> c = 160 \<or> c = 5760 \<or>
     (8192 \<le> c \<and> c \<le> 8202) \<or> c = 8232 \<or> c = 8233 \<or> c = 8239 \<or> c = 8287 \<or> c = 12288"

definition strip :: "pystr \<Rightarrow> pystr" where
  "strip s = rev (dropWhile isspace (rev (dropWhile isspace s)))"

text \<open>
  \<^verbatim>\<open>s.replace(old, new)\<close>: the occurrences of \<open>old\<close> are found scanning from the left,
  without overlap, and the scan resumes after each occurrence (the replaced text is not
  scanned again). With an empty \<open>old\<close>, \<open>new\<close> is inserted before every character and at
  the end.
\<close>

function replace :: "pystr \<Rightarrow> pystr \<Rightarrow> pystr \<Rightarrow> pystr" where
  "replace s old new =
     (if old = [] then new @ concat (map (\<lambda>c. c # new) s)
      else if s = [] then []
      else if prefix old s then new @ replace (drop (length old) s) old new
      else hd s # replace (tl s) old new)"
  by pat_completeness auto
termination
  by (relation "measure (\<lambda>(s, old, new). length s)") auto

declare replace.simps [simp del]

text \<open>\<^verbatim>\<open>str(n)\<close> for a non-negative integer, as the f-strings of the handler format it.\<close>

function str_of_nat :: "nat \<Rightarrow> pystr" where
  "str_of_nat n = (if n < 10 then [48 + n] else str_of_nat (n div 10) @ [48 + n mod 10])"
  by pat_completeness auto
termination
  by (relation "measure id") auto

declare str_of_nat.simps [simp del]

text \<open>\<^verbatim>\<open>str(i)\<close> for an integer of either sign.\<close>

definition str_of_int :: "int \<Rightarrow> pystr" where
  "str_of_int i = (if i < 0 then 45 # str_of_nat (nat (- i)) else str_of_nat (nat i))"

text \<open>An \<^verbatim>\<open>Optional[str]\<close> inside an f-string: \<^verbatim>\<open>None\<close> prints as \<^verbatim>\<open>None\<close>.\<close>

fun format_opt :: "pystr option \<Rightarrow> pystr" where
  "format_opt None = str ''None''"
| "format_opt (Some s) = s"

section \<open>The system prompt\<close>

definition SYSTEM_PROMPT :: pystr where
  "SYSTEM_PROMPT =
     [10] @
     str ''You are an expert German administrative assistant. Your task is to analyze the content of a letter provided as an image or text.'' @ [10] @
     str ''Analyze the letter and extract key information.'' @ [10] @
     str ''You MUST respond ONLY with a valid JSON object. Do not include any text before or after the JSON.'' @ [10] @
     [10] @
     str ''The JSON object must have the following structure:'' @ [10] @
     str ''{'' @ [10] @
     str ''  \"category\": \"One of: DEADLINE, FINANCIAL, INFO\",'' @ [10] @
     str ''  \"summary_german\": \"A concise 2-3 sentence summary of the letter in German.\",'' @ [10] @
     str ''  \"deadline_date\": \"If a specific deadline or payment due date is mentioned (e.g., 'f'' @ [52292] @ str ''llig am', 'zahlbar bis zum 31.05.2024'), provide it in YYYY-MM-DDTHH:MM:SS format. Use T21:00:00 for the time (end of day). If no date, this must be null.\",'' @ [10] @
     str ''  \"deadline_subject\": \"A short subject for a calendar event, e.g., 'Antrag f'' @ [52404] @ str ''r XYZ einreichen' or for bills 'Payment for ABC Corp'. If no action, this must be null.\",'' @ [10] @
     str ''  \"payment_amount\": \"The numeric value of any payment required. Otherwise, null.\",'' @ [10] @
     str ''  \"payment_currency\": \"The currency symbol or code (e.g., 'EUR'). Otherwise, null.\",'' @ [10] @
     str ''  \"payment_recipient\": \"Who the payment is for. Otherwise, null.\",'' @ [10] @
     str ''  \"full_analysis_log\": \"A detailed breakdown of the letter's purpose, key points, and extracted entities.\"'' @ [10] @
     str ''}'' @ [10] @
     [10] @
     str ''---'' @ [10] @
     str ''**VERY IMPORTANT: CATEGORIZATION RULES**'' @ [10] @
     [10] @
     str ''Follow these rules in order. Stop at the first rule that matches.'' @ [10] @
     [10] @
     str ''1.  **FINANCIAL Check:** First, scan the document for strong financial keywords like \"Rechnung\", \"Mahnung\", \"Betrag\", \"Kostenaufstellung\", \"f'' @ [52292] @ str ''llig\", \"zu zahlen\". '' @ [10] @
     str ''    - If you find any of these, you **MUST** set the category to \"FINANCIAL\".'' @ [10] @
     str ''    - Even if there is a date, if it is primarily a bill, the category is \"FINANCIAL\". Do not proceed to the next rule.'' @ [10] @
     [10] @
     str ''2.  **DEADLINE Check:** If, and only if, the document is NOT financial, then check for non-payment deadlines. Look for keywords like \"Antrag bis\", \"sp'' @ [52292] @ str ''testens bis\", \"fristgerecht einreichen\", \"Antwort bis\".'' @ [10] @
     str ''    - If you find these, set the category to \"DEADLINE\".'' @ [10] @
     [10] @
     str ''3.  **INFO Fallback:** If neither of the above rules apply, the category is \"INFO\".'' @ [10] @
     str ''---'' @ [10]"

section \<open>Data of one request\<close>

text \<open>
  The upload as the framework hands it over: \<^verbatim>\<open>file.filename\<close> and
  \<^verbatim>\<open>file.content_type\<close> are optional strings, \<open>body\<close> is what
  \<^verbatim>\<open>await file.read()\<close> returns.
\<close>

record upload_file =
  filename :: "pystr option"
  content_type :: "pystr option"
  body :: bytes

text \<open>
  An exception raised inside the handler. The handler tells \<^verbatim>\<open>json.JSONDecodeError\<close>
  from every other subclass of \<^verbatim>\<open>Exception\<close>; each carries the text of \<^verbatim>\<open>str(e)\<close>.
\<close>

datatype pyexn = JSONDecodeError pystr | OtherException pystr

fun exn_str :: "pyexn \<Rightarrow> pystr" where
  "exn_str (JSONDecodeError m) = m"
| "exn_str (OtherException m) = m"

text \<open>One element of the list passed to \<^verbatim>\<open>generate_content\<close>: the prompt or an image.\<close>

datatype 'img part = TextPart pystr | ImagePart 'img

text \<open>
  \<^verbatim>\<open>genai.types.GenerationConfig(temperature=0.1)\<close>: the decimal literal of the source is
  kept as the number it denotes.
\<close>

record generation_config =
  temperature :: real

text \<open>
  The libraries the handler calls are outside the repository; they are parameters of the
  model. Each call either raises or returns:
  \<^item> \<open>fitz_open\<close>: \<^verbatim>\<open>fitz.open(stream=..., filetype="pdf")\<close>;
  \<^item> \<open>page_count\<close>: \<^verbatim>\<open>len(pdf_document)\<close>; \<open>load_page d i\<close>: the page that iterating
    the document yields at index \<open>i\<close>;
  \<^item> \<open>get_pixmap p dpi\<close>: \<^verbatim>\<open>page.get_pixmap(dpi=dpi)\<close>; \<open>tobytes px fmt\<close>:
    \<^verbatim>\<open>pix.tobytes(fmt)\<close>;
  \<^item> \<open>image_open b\<close>: \<^verbatim>\<open>PIL.Image.open(io.BytesIO(b))\<close>;
  \<^item> \<open>generate_content name parts cfg\<close>:
    \<^verbatim>\<open>genai.GenerativeModel(name).generate_content(parts, generation_config=cfg)\<close>;
  \<^item> \<open>response_text r\<close>: the property \<^verbatim>\<open>response.text\<close>;
  \<^item> \<open>json_loads\<close>: \<^verbatim>\<open>json.loads\<close>;
  \<^item> \<open>json_render v\<close>: the body that \<^verbatim>\<open>JSONResponse(content=v)\<close> renders when it is
    constructed.
\<close>

record ('doc, 'page, 'pix, 'img, 'resp, 'json) env =
  fitz_open :: "bytes \<Rightarrow> pyexn + 'doc"
  page_count :: "'doc \<Rightarrow> nat"
  load_page :: "'doc \<Rightarrow> nat \<Rightarrow> pyexn + 'page"
  get_pixmap :: "'page \<Rightarrow> nat \<Rightarrow> pyexn + 'pix"
  tobytes :: "'pix \<Rightarrow> pystr \<Rightarrow> pyexn + bytes"
  image_open :: "bytes \<Rightarrow> pyexn + 'img"
  generate_content :: "pystr \<Rightarrow> 'img part list \<Rightarrow> generation_config \<Rightarrow> pyexn + 'resp"
  response_text :: "'resp \<Rightarrow> pyexn + pystr"
  json_loads :: "pystr \<Rightarrow> pyexn + 'json"
  json_render :: "'json \<Rightarrow> pyexn + bytes"

text \<open>
  What the handler does to the outside, in order: a line printed to the server's output,
  the read of the body, and every library call with the plain data it is given.
\<close>

datatype 'img event =
    Print pystr
  | FileRead
  | FitzOpen bytes
  | LoadPage nat
  | GetPixmap nat nat
  | ToBytes nat pystr
  | ImageOpen bytes
  | GenerateContent pystr "'img part list" generation_config
  | ResponseText
  | JsonLoads pystr
  | JsonRender

text \<open>
  How a request ends: the JSON response (status 200) with its rendered body, an
  \<^verbatim>\<open>HTTPException\<close> with status code and detail, or an exception that leaves the handler
  (which the framework answers with status 500).
\<close>

datatype outcome = JSONResponse bytes | HTTPException nat pystr | Uncaught pyexn

fun status_code :: "outcome \<Rightarrow> nat" where
  "status_code (JSONResponse b) = 200"
| "status_code (HTTPException c d) = c"
| "status_code (Uncaught e) = 500"

section \<open>The handler\<close>

text \<open>
  The loop over \<^verbatim>\<open>enumerate(pdf_document)\<close>: \<open>is\<close> are the indices still to visit, \<open>n\<close> is
  \<^verbatim>\<open>len(pdf_document)\<close>. A page that raises ends the loop with the exception.
\<close>

fun convert_pages ::
  "('doc, 'page, 'pix, 'img, 'resp, 'json) env \<Rightarrow> 'doc \<Rightarrow> nat \<Rightarrow> nat list \<Rightarrow>
   'img part list \<Rightarrow> 'img event list \<Rightarrow> 'img event list \<times> (pyexn + 'img part list)" where
  "convert_pages E doc n [] model_content evs = (evs, Inr model_content)"
| "convert_pages E doc n (i # is) model_content evs =
     (case load_page E doc i of
        Inl e \<Rightarrow> (evs @ [LoadPage i], Inl e)
      | Inr page \<Rightarrow>
          let evs1 = evs @ [LoadPage i,
                Print (str ''  - Processing page '' @ str_of_nat (i + 1) @ str ''/'' @ str_of_nat n),
                GetPixmap i 300]
          in (case get_pixmap E page 300 of
                Inl e \<Rightarrow> (evs1, Inl e)
              | Inr pix \<Rightarrow>
                  (case tobytes E pix (str ''png'') of
                     Inl e \<Rightarrow> (evs1 @ [ToBytes i (str ''png'')], Inl e)
                   | Inr img_bytes \<Rightarrow>
                       (case image_open E img_bytes of
                          Inl e \<Rightarrow> (evs1 @ [ToBytes i (str ''png''), ImageOpen img_bytes], Inl e)
                        | Inr img \<Rightarrow>
                            convert_pages E doc n is (model_content @ [ImagePart img])
                              (evs1 @ [ToBytes i (str ''png''), ImageOpen img_bytes])))))"

text \<open>Lines 80 to 95: the list sent to the model, from the prompt and the upload.\<close>

definition build_model_content ::
  "('doc, 'page, 'pix, 'img, 'resp, 'json) env \<Rightarrow> upload_file \<Rightarrow> 'img event list \<Rightarrow>
   'img event list \<times> (pyexn + 'img part list)" where
  "build_model_content E file evs =
     (let file_content = body file; model_content = [TextPart SYSTEM_PROMPT] in
      if content_type file = Some (str ''application/pdf'') then
        (let evs1 = evs @ [Print (str ''PDF detected. Converting all pages to images...''),
                           FitzOpen file_content]
         in case fitz_open E file_content of
              Inl e \<Rightarrow> (evs1, Inl e)
            | Inr pdf_document \<Rightarrow>
                (case convert_pages E pdf_document (page_count E pdf_document)
                        [0 ..< page_count E pdf_document] model_content evs1 of
                   (evs2, Inl e) \<Rightarrow> (evs2, Inl e)
                 | (evs2, Inr mc) \<Rightarrow> (evs2 @ [Print (str ''PDF conversion successful.'')], Inr mc)))
      else
        (case image_open E file_content of
           Inl e \<Rightarrow> (evs @ [ImageOpen file_content], Inl e)
         | Inr img \<Rightarrow> (evs @ [ImageOpen file_content], Inr (model_content @ [ImagePart img]))))"

text \<open>Line 106: the text handed to \<^verbatim>\<open>json.loads\<close>.\<close>

definition clean_response :: "pystr \<Rightarrow> pystr" where
  "clean_response text = replace (replace (strip text) (str ''```json'') []) (str ''```'') []"

text \<open>
  The body of the \<^verbatim>\<open>try\<close> (lines 76 to 109). Besides the events and the result it
  returns the local variable \<^verbatim>\<open>response\<close>, unbound (\<open>None\<close>) until the model call has
  returned: the first \<^verbatim>\<open>except\<close> clause reads it.
\<close>

definition try_body ::
  "('doc, 'page, 'pix, 'img, 'resp, 'json) env \<Rightarrow> upload_file \<Rightarrow> 'img event list \<Rightarrow>
   'img event list \<times> 'resp option \<times> (pyexn + bytes)" where
  "try_body E file evs =
     (case build_model_content E file (evs @ [FileRead]) of
        (evs1, Inl e) \<Rightarrow> (evs1, None, Inl e)
      | (evs1, Inr model_content) \<Rightarrow>
          let evs2 = evs1 @
                [Print (str ''Sending request with '' @ str_of_int (int (length model_content) - 1) @
                        str '' image(s) to Google Gemini API...''),
                 GenerateContent (str ''gemini-1.5-flash'') model_content \<lparr>temperature = 0.1\<rparr>]
          in (case generate_content E (str ''gemini-1.5-flash'') model_content
                     \<lparr>temperature = 0.1\<rparr> of
                Inl e \<Rightarrow> (evs2, None, Inl e)
              | Inr response \<Rightarrow>
                  let evs3 = evs2 @ [Print (str ''Received response from API.''), ResponseText]
                  in (case response_text E response of
                        Inl e \<Rightarrow> (evs3, Some response, Inl e)
                      | Inr text \<Rightarrow>
                          let cleaned = clean_response text;
                              evs4 = evs3 @ [JsonLoads cleaned]
                          in (case json_loads E cleaned of
                                Inl e \<Rightarrow> (evs4, Some response, Inl e)
                              | Inr analysis_result \<Rightarrow>
                                  let evs5 = evs4 @
                                        [Print (str ''Successfully parsed JSON response.''),
                                         JsonRender]
                                  in (case json_render E analysis_result of
                                        Inl e \<Rightarrow> (evs5, Some response, Inl e)
                                      | Inr rendered \<Rightarrow> (evs5, Some response, Inr rendered))))))"

text \<open>
  The two \<^verbatim>\<open>except\<close> clauses (lines 112 to 118), entered with the events so far, the
  local variable \<^verbatim>\<open>response\<close> and the exception. The first clause formats
  \<^verbatim>\<open>response.text\<close> into its log line before it raises the \<^verbatim>\<open>HTTPException\<close>; were
  \<^verbatim>\<open>response\<close> unbound, or its text to raise, that exception would leave the handler.
\<close>

definition except_clauses ::
  "('doc, 'page, 'pix, 'img, 'resp, 'json) env \<Rightarrow> 'img event list \<Rightarrow> 'resp option \<Rightarrow> pyexn \<Rightarrow>
   'img event list \<times> outcome" where
  "except_clauses E evs response e =
     (case e of
        JSONDecodeError m \<Rightarrow>
          (case response of
             None \<Rightarrow>
               (evs, Uncaught (OtherException
                  (str ''cannot access local variable 'response' where it is not associated with a value'')))
           | Some r \<Rightarrow>
               (case response_text E r of
                  Inl e' \<Rightarrow> (evs @ [ResponseText], Uncaught e')
                | Inr text \<Rightarrow>
                    (evs @ [ResponseText,
                       Print (str ''ERROR: Failed to parse JSON from model response. Response was:'' @
                              [10] @ text)],
                     HTTPException 500 (str ''The AI model returned an invalid format.''))))
      | OtherException m \<Rightarrow>
          (evs @ [Print (str ''An unexpected error occurred: '' @ exn_str e)],
           HTTPException 500 (str ''An internal server error occurred: '' @ exn_str e)))"

text \<open>The handler: the first log line, the content-type check, the \<^verbatim>\<open>try\<close> statement.\<close>

definition analyze_letter ::
  "('doc, 'page, 'pix, 'img, 'resp, 'json) env \<Rightarrow> upload_file \<Rightarrow>
   'img event list \<times> outcome" where
  "analyze_letter E file =
     (let evs0 = [Print (str ''Received file: '' @ format_opt (filename file) @
                         str '', Content-Type: '' @ format_opt (content_type file))]
      in if content_type file \<notin>
              set [Some (str ''application/pdf''), Some (str ''image/jpeg''), Some (str ''image/png'')]
         then (evs0, HTTPException 400 (str ''Invalid file type.''))
         else (case try_body E file evs0 of
                 (evs, response, Inr rendered) \<Rightarrow> (evs, JSONResponse rendered)
               | (evs, response, Inl e) \<Rightarrow> except_clauses E evs response e))"

text \<open>The model calls of a run, read off its events: model name, payload, configuration.\<close>

fun model_calls :: "'img event list \<Rightarrow> (pystr \<times> 'img part list \<times> generation_config) list" where
  "model_calls [] = []"
| "model_calls (GenerateContent name parts cfg # es) = (name, parts, cfg) # model_calls es"
| "model_calls (e # es) = model_calls es"

text \<open>The renderings of a run, read off its events: page index and resolution.\<close>

fun pixmap_calls :: "'img event list \<Rightarrow> (nat \<times> nat) list" where
  "pixmap_calls [] = []"
| "pixmap_calls (GetPixmap i dpi # es) = (i, dpi) # pixmap_calls es"
| "pixmap_calls (e # es) = pixmap_calls es"

section \<open>What is assumed of \<^verbatim>\<open>json.loads\<close>\<close>

text \<open>
  The whitespace of the JSON grammar: space, tab, line feed, carriage return. The decoder
  of the standard library skips it before and after the document.
\<close>

definition json_ws :: "nat \<Rightarrow> bool" where
  "json_ws c \<longleftrightarrow> c = 32 \<or> c = 9 \<or> c = 10 \<or> c = 13"

definition json_trim :: "pystr \<Rightarrow> pystr" where
  "json_trim s = rev (dropWhile json_ws (rev (dropWhile json_ws s)))"

text \<open>
  Two facts about a JSON decoder, used where a claim speaks of valid JSON: whether a text
  decodes, and to which value, does not depend on the JSON whitespace around it; and a
  text that decodes is, inside that whitespace, a non-empty document whose first and last
  characters are not whitespace of any kind (they belong to a token).
\<close>

definition json_decoder :: "(pystr \<Rightarrow> pyexn + 'json) \<Rightarrow> bool" where
  "json_decoder loads \<longleftrightarrow>
     (\<forall>s v. (loads s = Inr v) = (loads (json_trim s) = Inr v)) \<and>
     (\<forall>s v. loads s = Inr v \<longrightarrow>
        json_trim s \<noteq> [] \<and> \<not> isspace (hd (json_trim s)) \<and> \<not> isspace (last (json_trim s)))"

section \<open>An example environment\<close>

text \<open>
  A small instance of the libraries, to run the handler on concrete requests. A document
  is the bytes after the \<^verbatim>\<open>%PDF\<close> header, one page per byte; a pixmap is the page with
  its resolution; an image is its bytes; the model answers every request with \<open>reply\<close>;
  the decoder accepts a text that is, inside JSON whitespace, enclosed in braces, and
  returns that text.
\<close>

definition example_env ::
  "pystr \<Rightarrow> (bytes, nat, nat \<times> nat, bytes, pystr, pystr) env" where
  "example_env reply =
     \<lparr> fitz_open = (\<lambda>b. if prefix (str ''%PDF'') b then Inr (drop 4 b)
                          else Inl (OtherException (str ''Failed to open stream''))),
       page_count = length,
       load_page = (\<lambda>d i. if i < length d then Inr (d ! i)
                            else Inl (OtherException (str ''page not in document''))),
       get_pixmap = (\<lambda>p dpi. Inr (p, dpi)),
       tobytes = (\<lambda>px fmt. Inr [fst px, snd px]),
       image_open = (\<lambda>b. if b = [] then Inl (OtherException (str ''cannot identify image file''))
                           else Inr b),
       generate_content = (\<lambda>name parts cfg. Inr reply),
       response_text = Inr,
       json_loads = (\<lambda>s. let t = json_trim s in
                            if t \<noteq> [] \<and> hd t = 123 \<and> last t = 125 then Inr t
                            else Inl (JSONDecodeError (str ''Expecting value''))),
       json_render = Inr \<rparr>"

text \<open>
  The same environment with a decoder and a renderer that treat \<^verbatim>\<open>NaN\<close> as the
  libraries do by default: \<^verbatim>\<open>json.loads\<close> accepts the constant, and
  \<^verbatim>\<open>JSONResponse\<close> refuses to render it.
\<close>

definition lenient_env ::
  "pystr \<Rightarrow> (bytes, nat, nat \<times> nat, bytes, pystr, pystr) env" where
  "lenient_env reply =
     (example_env reply)
       \<lparr> json_loads := (\<lambda>s. if json_trim s = str ''NaN'' then Inr (str ''NaN'')
                              else json_loads (example_env reply) s),
         json_render := (\<lambda>v. if v = str ''NaN''
                               then Inl (OtherException
                                      (str ''Out of range float values are not JSON compliant''))
                               else Inr v) \<rparr>"

section \<open>Facts about \<^verbatim>\<open>replace\<close> and \<^verbatim>\<open>strip\<close>\<close>

lemma replace_Nil: "old \<noteq> [] \<Longrightarrow> replace [] old new = []"
  by (subst replace.simps) simp

lemma replace_Cons:
  "old \<noteq> [] \<Longrightarrow> replace (c # cs) old new =
     (if prefix old (c # cs) then new @ replace (drop (length old) (c # cs)) old new
      else c # replace cs old new)"
  by (subst replace.simps) simp

lemma replace_no_occurrence:
  "old \<noteq> [] \<Longrightarrow> \<not> sublist old s \<Longrightarrow> replace s old new = s"
proof (induction s)
  case Nil
  then show ?case by (simp add: replace_Nil)
next
  case (Cons c cs)
  from Cons.prems(2) have "\<not> prefix old (c # cs)" "\<not> sublist old cs"
    by (auto simp add: sublist_Cons_right)
  with Cons.IH Cons.prems(1) show ?case
    by (simp add: replace_Cons)
qed

lemma replace3_keeps_short_prefix1:
  "\<not> prefix [b] s \<Longrightarrow> \<not> prefix [b] (replace s [b, b, b] [])"
  by (cases s) (auto simp add: replace_Cons replace_Nil)

lemma replace_match:
  assumes "old \<noteq> []" "prefix old s"
  shows "replace s old new = new @ replace (drop (length old) s) old new"
  using assms by (cases s) (simp_all add: replace_Cons)

lemma replace_no_match:
  assumes "old \<noteq> []" "\<not> prefix old (c # cs)"
  shows "replace (c # cs) old new = c # replace cs old new"
  using assms by (simp add: replace_Cons)

lemma replace3_keeps_short_prefix2:
  assumes "\<not> prefix [b, b] s"
  shows "\<not> prefix [b, b] (replace s [b, b, b] [])"
proof (cases s)
  case Nil
  then show ?thesis by (simp add: replace_Nil)
next
  case (Cons c cs)
  have np: "\<not> prefix [b, b, b] (c # cs)"
    using assms Cons by (cases cs) auto
  have r: "replace s [b, b, b] [] = c # replace cs [b, b, b] []"
    unfolding Cons using np by (intro replace_no_match) simp_all
  show ?thesis
  proof (cases "c = b")
    case True
    with assms Cons have "\<not> prefix [b] cs" by simp
    from replace3_keeps_short_prefix1 [OF this] True show ?thesis
      unfolding r by simp
  next
    case False
    then show ?thesis unfolding r by simp
  qed
qed

lemma replace3_removes_all:
  "\<not> sublist [b, b, b] (replace s [b, b, b] [])"
proof (induction "length s" arbitrary: s rule: less_induct)
  case less
  show ?case
  proof (cases s)
    case Nil
    then show ?thesis by (simp add: replace_Nil)
  next
    case (Cons c cs)
    show ?thesis
    proof (cases "prefix [b, b, b] s")
      case True
      have "length (drop 3 s) < length s" using Cons by simp
      from less [OF this] have "\<not> sublist [b, b, b] (replace (drop 3 s) [b, b, b] [])" .
      moreover have "replace s [b, b, b] [] = replace (drop 3 s) [b, b, b] []"
        using replace_match [OF _ True, of "[]"] by (simp add: numeral_3_eq_3)
      ultimately show ?thesis by simp
    next
      case False
      have r: "replace s [b, b, b] [] = c # replace cs [b, b, b] []"
        unfolding Cons using False [unfolded Cons] by (intro replace_no_match) simp_all
      have 1: "\<not> sublist [b, b, b] (replace cs [b, b, b] [])"
        using less [of cs] Cons by simp
      have 2: "\<not> prefix [b, b, b] (c # replace cs [b, b, b] [])"
      proof (cases "c = b")
        case True
        with False Cons have "\<not> prefix [b, b] cs" by simp
        from replace3_keeps_short_prefix2 [OF this] show ?thesis by simp
      next
        case False
        then show ?thesis by simp
      qed
      from 1 2 show ?thesis
        unfolding r by (simp add: sublist_Cons_right)
    qed
  qed
qed

lemma replace3_fence_suffix:
  "\<not> sublist [b, b, b] u \<Longrightarrow> replace (u @ [b, b, b]) [b, b, b] [] = u"
proof (induction u)
  case Nil
  have "replace [b, b, b] [b, b, b] [] = [] @ replace (drop (length [b, b, b]) [b, b, b]) [b, b, b] []"
    by (rule replace_match) simp_all
  then show ?case by (simp add: replace_Nil)
next
  case (Cons c cs)
  from Cons.prems have np: "\<not> prefix [b, b, b] (c # cs)" and ns: "\<not> sublist [b, b, b] cs"
    by (auto simp add: sublist_Cons_right)
  show ?case
  proof (cases "prefix [b, b, b] ((c # cs) @ [b, b, b])")
    case True
    with np have short: "c # cs = [b] \<or> c # cs = [b, b]"
      by (cases cs; cases "tl cs") auto
    have m: "replace ((c # cs) @ [b, b, b]) [b, b, b] [] =
               replace (drop 3 ((c # cs) @ [b, b, b])) [b, b, b] []"
      using replace_match [OF _ True, of "[]"] by (simp add: numeral_3_eq_3)
    from short show ?thesis
    proof
      assume "c # cs = [b]"
      then show ?thesis unfolding m by (simp add: replace_Cons replace_Nil)
    next
      assume "c # cs = [b, b]"
      then show ?thesis unfolding m by (simp add: replace_Cons replace_Nil)
    qed
  next
    case False
    then have "replace (c # (cs @ [b, b, b])) [b, b, b] [] = c # replace (cs @ [b, b, b]) [b, b, b] []"
      by (intro replace_no_match) simp_all
    with Cons.IH [OF ns] show ?thesis by simp
  qed
qed

lemma sublist_longer_tail:
  assumes "sublist (p @ q) (u @ v)" "length v < length q"
  shows "sublist p u"
proof -
  from assms(1) obtain ps ss where "u @ v = ps @ (p @ q) @ ss"
    by (auto simp add: sublist_def)
  then have e: "(ps @ p) @ (q @ ss) = u @ v" by simp
  then obtain us where "(ps @ p = u @ us \<and> us @ q @ ss = v) \<or> ((ps @ p) @ us = u \<and> q @ ss = us @ v)"
    unfolding append_eq_append_conv2 by blast
  then show ?thesis
  proof
    assume "ps @ p = u @ us \<and> us @ q @ ss = v"
    then have "length v \<ge> length q" by auto
    with assms(2) show ?thesis by simp
  next
    assume "(ps @ p) @ us = u \<and> q @ ss = us @ v"
    then have "u = ps @ p @ us" by auto
    then show ?thesis by (auto simp add: sublist_def)
  qed
qed

lemma sublist_skip_front:
  assumes "sublist p (a @ s)" "p \<noteq> []" "\<forall>x\<in>set a. x \<noteq> hd p"
  shows "sublist p s"
  using assms
proof (induction a)
  case Nil
  then show ?case by simp
next
  case (Cons x a)
  from Cons.prems(2,3) have "\<not> prefix p (x # a @ s)"
    by (cases p) auto
  with Cons.prems(1) have "sublist p (a @ s)"
    by (simp add: sublist_Cons_right)
  with Cons show ?case by simp
qed

lemma sublist_skip_back:
  assumes "sublist p (s @ a)" "p \<noteq> []" "\<forall>x\<in>set a. x \<noteq> last p"
  shows "sublist p s"
proof -
  have "sublist (rev p) (rev a @ rev s)"
    using assms(1) sublist_rev [of p "s @ a"] by simp
  moreover have "rev p \<noteq> []" "\<forall>x\<in>set (rev a). x \<noteq> hd (rev p)"
    using assms(2,3) by (simp_all add: hd_rev)
  ultimately have "sublist (rev p) (rev s)"
    by (rule sublist_skip_front)
  then show ?thesis by simp
qed

lemma sublist_dropWhile:
  assumes "sublist p s" "p \<noteq> []" "\<not> P (hd p)"
  shows "sublist p (dropWhile P s)"
proof -
  have "sublist p (takeWhile P s @ dropWhile P s)" using assms(1) by simp
  from sublist_skip_front [OF this assms(2)] assms(3) show ?thesis
    by (auto dest: set_takeWhileD)
qed

lemma sublist_trim:
  assumes "sublist p s" "p \<noteq> []" "\<not> P (hd p)" "\<not> P (last p)"
  shows "sublist p (rev (dropWhile P (rev (dropWhile P s))))"
proof -
  have "sublist p (dropWhile P s)" using assms(1-3) by (rule sublist_dropWhile)
  then have "sublist (rev p) (rev (dropWhile P s))" by simp
  moreover have "rev p \<noteq> []" "\<not> P (hd (rev p))"
    using assms(2,4) by (simp_all add: hd_rev)
  ultimately have "sublist (rev p) (dropWhile P (rev (dropWhile P s)))"
    by (rule sublist_dropWhile)
  then show ?thesis
    using sublist_rev [of p "rev (dropWhile P (rev (dropWhile P s)))"] by simp
qed

lemma trim_sublist: "sublist (rev (dropWhile P (rev (dropWhile P s)))) s"
proof -
  have "rev (dropWhile P s) = takeWhile P (rev (dropWhile P s)) @ dropWhile P (rev (dropWhile P s))"
    by simp
  then have "dropWhile P s =
      rev (dropWhile P (rev (dropWhile P s))) @ rev (takeWhile P (rev (dropWhile P s)))"
    by (metis rev_append rev_rev_ident)
  moreover have "s = takeWhile P s @ dropWhile P s" by simp
  ultimately have "s = takeWhile P s @ rev (dropWhile P (rev (dropWhile P s))) @
      rev (takeWhile P (rev (dropWhile P s)))" by metis
  then show ?thesis unfolding sublist_def by blast
qed

lemma trim_decomp:
  "s = takeWhile P s @ rev (dropWhile P (rev (dropWhile P s))) @
       rev (takeWhile P (rev (dropWhile P s)))"
proof -
  have "rev (dropWhile P s) = takeWhile P (rev (dropWhile P s)) @ dropWhile P (rev (dropWhile P s))"
    by simp
  then have "dropWhile P s =
      rev (dropWhile P (rev (dropWhile P s))) @ rev (takeWhile P (rev (dropWhile P s)))"
    by (metis rev_append rev_rev_ident)
  moreover have "s = takeWhile P s @ dropWhile P s" by simp
  ultimately show ?thesis by metis
qed

lemma trim_exact:
  assumes "\<forall>x\<in>set a. P x" "\<forall>x\<in>set b. P x" "m \<noteq> []" "\<not> P (hd m)" "\<not> P (last m)"
  shows "rev (dropWhile P (rev (dropWhile P (a @ m @ b)))) = m"
proof -
  have 1: "dropWhile P (a @ m @ b) = m @ b"
    using assms(1,3,4) by (cases m) simp_all
  have "rev m \<noteq> []" "\<not> P (hd (rev m))"
    using assms(3,5) by (simp_all add: hd_rev)
  then have "dropWhile P (rev m) = rev m"
    by (simp add: dropWhile_eq_self_iff)
  moreover have "dropWhile P (rev b @ rev m) = dropWhile P (rev m)"
    using assms(2) by (intro dropWhile_append2) simp
  ultimately have 2: "dropWhile P (rev b @ rev m) = rev m" by simp
  show ?thesis by (simp add: 1 2)
qed

lemma bt3_str: "str ''```'' = [96, 96, 96]"
  by (simp add: str_def)

lemma btjson_str: "str ''```json'' = [96, 96, 96] @ [106, 115, 111, 110]"
  by (simp add: str_def)

lemma clean_response_no_fence: "\<not> sublist [96, 96, 96] (clean_response raw)"
  unfolding clean_response_def bt3_str by (rule replace3_removes_all)

lemma strip_keeps_fence:
  assumes "sublist [96, 96, 96] raw"
  shows "sublist [96, 96, 96] (strip raw)"
  unfolding strip_def using assms by (rule sublist_trim) (simp_all add: isspace_def)

lemma trim_ends:
  assumes "rev (dropWhile P (rev (dropWhile P s))) \<noteq> []"
  shows "\<not> P (hd (rev (dropWhile P (rev (dropWhile P s)))))"
    and "\<not> P (last (rev (dropWhile P (rev (dropWhile P s)))))"
proof -
  let ?d = "dropWhile P s"
  let ?m = "rev (dropWhile P (rev ?d))"
  have ne: "dropWhile P (rev ?d) \<noteq> []" using assms by simp
  from hd_dropWhile [OF ne] show "\<not> P (last ?m)"
    using ne by (simp add: last_rev)
  have "rev ?d = takeWhile P (rev ?d) @ dropWhile P (rev ?d)" by simp
  then have d: "?d = ?m @ rev (takeWhile P (rev ?d))"
    by (metis rev_append rev_rev_ident)
  have "?d \<noteq> []"
  proof
    assume "?d = []"
    then have "?m = []" by (simp only: rev.simps dropWhile.simps)
    with assms show False by (simp only:)
  qed
  from hd_dropWhile [OF this] have "\<not> P (hd ?d)" .
  moreover have "hd ?d = hd ?m"
    using assms by (subst d) simp
  ultimately show "\<not> P (hd ?m)" by simp
qed

lemma trim_idem:
  "rev (dropWhile P (rev (dropWhile P (rev (dropWhile P (rev (dropWhile P s))))))) =
   rev (dropWhile P (rev (dropWhile P s)))"
proof (cases "rev (dropWhile P (rev (dropWhile P s))) = []")
  case True
  show ?thesis by (simp only: True) simp
next
  case False
  from trim_exact [of "[]" P "[]", OF _ _ False trim_ends [OF False]] show ?thesis by simp
qed

lemma json_trim_idem: "json_trim (json_trim s) = json_trim s"
  unfolding json_trim_def by (rule trim_idem)

lemma json_ws_isspace: "json_ws c \<Longrightarrow> isspace c"
  by (auto simp add: json_ws_def isspace_def)

lemma json_decoder_strip:
  assumes "json_decoder loads" "loads t = Inr v"
  shows "strip t = json_trim t" and "loads (json_trim t) = Inr v"
proof -
  from assms have m: "json_trim t \<noteq> []" "\<not> isspace (hd (json_trim t))"
      "\<not> isspace (last (json_trim t))"
    unfolding json_decoder_def by blast+
  from assms show "loads (json_trim t) = Inr v"
    unfolding json_decoder_def by blast
  have "t = takeWhile json_ws t @ json_trim t @ rev (takeWhile json_ws (rev (dropWhile json_ws t)))"
    unfolding json_trim_def by (rule trim_decomp)
  moreover have "rev (dropWhile isspace (rev (dropWhile isspace
      (takeWhile json_ws t @ json_trim t @ rev (takeWhile json_ws (rev (dropWhile json_ws t))))))) =
      json_trim t"
    using m by (intro trim_exact) (auto dest: set_takeWhileD json_ws_isspace)
  ultimately show "strip t = json_trim t"
    unfolding strip_def by simp
qed

lemma json_trim_padded:
  assumes "\<forall>c\<in>set ws1. json_ws c" "\<forall>c\<in>set ws2. json_ws c"
  shows "json_trim (ws1 @ t @ ws2) = json_trim t"
proof (cases "json_trim t = []")
  case True
  then have all: "\<forall>c\<in>set (dropWhile json_ws t). json_ws c"
    unfolding json_trim_def by simp
  have "dropWhile json_ws t = []"
  proof (rule ccontr)
    assume ne: "dropWhile json_ws t \<noteq> []"
    from hd_dropWhile [OF ne] all ne show False by (meson hd_in_set)
  qed
  then have "\<forall>c\<in>set t. json_ws c" by (simp only: dropWhile_eq_Nil_conv)
  with assms have "dropWhile json_ws (ws1 @ t @ ws2) = []" by auto
  then have "json_trim (ws1 @ t @ ws2) = []"
    unfolding json_trim_def by (simp only: rev.simps dropWhile.simps)
  with True show ?thesis by (simp only:)
next
  case False
  have e: "\<not> json_ws (hd (json_trim t))" "\<not> json_ws (last (json_trim t))"
    using trim_ends [of json_ws t] False unfolding json_trim_def by blast+
  define a where "a = takeWhile json_ws t"
  define b where "b = rev (takeWhile json_ws (rev (dropWhile json_ws t)))"
  have t: "t = a @ json_trim t @ b"
    unfolding a_def b_def json_trim_def by (rule trim_decomp)
  have ab: "\<forall>c\<in>set (ws1 @ a). json_ws c" "\<forall>c\<in>set (b @ ws2). json_ws c"
    using assms unfolding a_def b_def by (auto dest: set_takeWhileD)
  have "json_trim ((ws1 @ a) @ json_trim t @ (b @ ws2)) = json_trim t"
    unfolding json_trim_def [of "(ws1 @ a) @ json_trim t @ (b @ ws2)"]
    using ab False e by (rule trim_exact)
  moreover have "(ws1 @ a) @ json_trim t @ (b @ ws2) = ws1 @ t @ ws2"
    by (subst (2) t) simp
  ultimately show ?thesis by (simp only:)
qed

lemma clean_response_unfenced:
  assumes "\<not> sublist [96, 96, 96] t"
  shows "clean_response t = strip t"
proof -
  have s: "\<not> sublist [96, 96, 96] (strip t)"
    using assms trim_sublist [of isspace t] sublist_order.order.trans
    unfolding strip_def by blast
  have "sublist [96, 96, 96] (str ''```json'')"
    unfolding btjson_str by (rule sublist_append_rightI)
  with s have j: "\<not> sublist (str ''```json'') (strip t)"
    using sublist_order.order.trans by blast
  have "replace (strip t) (str ''```json'') [] = strip t"
    using j by (intro replace_no_occurrence) (simp add: str_def)
  moreover have "replace (strip t) [96, 96, 96] [] = strip t"
    using s by (intro replace_no_occurrence) simp
  ultimately show ?thesis
    unfolding clean_response_def bt3_str by simp
qed

lemma clean_response_fenced:
  assumes "\<not> sublist [96, 96, 96] t"
    and "\<forall>c\<in>set ws1. json_ws c" "\<forall>c\<in>set ws2. json_ws c"
  shows "clean_response (str ''```json'' @ ws1 @ t @ ws2 @ str ''```'') = ws1 @ t @ ws2"
proof -
  let ?u = "ws1 @ t @ ws2"
  let ?w = "str ''```json'' @ ws1 @ t @ ws2 @ [96, 96, 96]"
  have nf: "\<not> sublist [96, 96, 96] ?u"
  proof
    assume a: "sublist [96, 96, 96] ?u"
    have f: "\<forall>x\<in>set ws1. x \<noteq> hd [96, 96, 96]"
      using assms(2) by (auto simp add: json_ws_def)
    have b: "\<forall>x\<in>set ws2. x \<noteq> last [96, 96, 96]"
      using assms(3) by (auto simp add: json_ws_def)
    have "sublist [96, 96, 96] (t @ ws2)"
      using sublist_skip_front [OF a _ f] by simp
    then have "sublist [96, 96, 96] t"
      using sublist_skip_back [OF _ _ b] by simp
    with assms(1) show False by simp
  qed
  have nj: "\<not> sublist (str ''```json'') (?u @ [96, 96, 96])"
    unfolding btjson_str using nf sublist_longer_tail [of "[96, 96, 96]" "[106, 115, 111, 110]" ?u "[96, 96, 96]"]
    by auto
  have w: "?w = [] @ ?w @ []" by simp
  have "rev (dropWhile isspace (rev (dropWhile isspace ([] @ ?w @ [])))) = ?w"
    by (rule trim_exact) (simp_all add: str_def isspace_def)
  then have 1: "strip ?w = str ''```json'' @ (?u @ [96, 96, 96])"
    unfolding strip_def by simp
  have "replace (str ''```json'' @ (?u @ [96, 96, 96])) (str ''```json'') [] =
          [] @ replace (drop (length (str ''```json'')) (str ''```json'' @ (?u @ [96, 96, 96])))
                 (str ''```json'') []"
    by (rule replace_match) (simp_all add: str_def)
  then have 2: "replace (strip ?w) (str ''```json'') [] = replace (?u @ [96, 96, 96]) (str ''```json'') []"
    unfolding 1 by simp
  have 3: "replace (?u @ [96, 96, 96]) (str ''```json'') [] = ?u @ [96, 96, 96]"
    using nj by (intro replace_no_occurrence) (simp add: str_def)
  have 4: "replace (?u @ [96, 96, 96]) [96, 96, 96] [] = ?u"
    using nf by (rule replace3_fence_suffix)
  show ?thesis
    unfolding clean_response_def bt3_str by (simp only: 2 3 4)
qed

lemma example_json_decoder: "json_decoder (json_loads (example_env r))"
proof -
  have "\<not> isspace 123" "\<not> isspace 125" by (simp_all add: isspace_def)
  then show ?thesis
    unfolding json_decoder_def
    by (auto simp add: example_env_def Let_def json_trim_idem split: if_splits)
qed

section \<open>The events of a run\<close>

lemma model_calls_append: "model_calls (a @ b) = model_calls a @ model_calls b"
  by (induction a rule: model_calls.induct) simp_all

lemma pixmap_calls_append: "pixmap_calls (a @ b) = pixmap_calls a @ pixmap_calls b"
  by (induction a rule: pixmap_calls.induct) simp_all

lemma convert_pages_model_calls:
  "model_calls (fst (convert_pages E doc n is mc evs)) = model_calls evs"
  by (induction "is" arbitrary: mc evs) (simp_all add: Let_def model_calls_append split: sum.splits)

lemma build_model_calls:
  "model_calls (fst (build_model_content E file evs)) = model_calls evs"
proof -
  have "model_calls (fst (case convert_pages E d n is mc l of
            (l2, Inl e) \<Rightarrow> (l2, Inl e)
          | (l2, Inr m) \<Rightarrow> (l2 @ [Print p], Inr m))) = model_calls l" for d n "is" mc l p
    using convert_pages_model_calls [of E d n "is" mc l]
    by (cases "convert_pages E d n is mc l") (auto split: sum.splits simp: model_calls_append)
  then show ?thesis
    by (simp add: build_model_content_def Let_def model_calls_append split: sum.splits)
qed

lemma convert_pages_result_cong:
  assumes "load_page E = load_page E'" "get_pixmap E = get_pixmap E'"
    "tobytes E = tobytes E'" "image_open E = image_open E'"
  shows "snd (convert_pages E doc n is mc evs) = snd (convert_pages E' doc n' is mc evs')"
  using assms
  by (induction "is" arbitrary: mc evs evs') (simp_all add: Let_def split: sum.splits)

lemma snd_convert_case:
  "snd (case convert_pages E d n is mc l of
            (l2, Inl e) \<Rightarrow> (l2, Inl e)
          | (l2, Inr m) \<Rightarrow> (l2 @ [Print p], Inr m)) = snd (convert_pages E d n is mc l)"
  by (cases "convert_pages E d n is mc l") (auto split: sum.splits)

lemma build_result_cong:
  assumes "fitz_open E = fitz_open E'" "page_count E = page_count E'"
    "load_page E = load_page E'" "get_pixmap E = get_pixmap E'"
    "tobytes E = tobytes E'" "image_open E = image_open E'"
    "content_type file = content_type file'" "body file = body file'"
  shows "snd (build_model_content E file evs) = snd (build_model_content E' file' evs')"
proof (cases "content_type file = Some (str ''application/pdf'')")
  case True
  show ?thesis
  proof (cases "fitz_open E (body file)")
    case (Inl e)
    with True assms show ?thesis
      by (simp add: build_model_content_def Let_def)
  next
    case (Inr d)
    with True assms(1,2,7,8) convert_pages_result_cong [OF assms(3-6)] show ?thesis
      by (simp add: build_model_content_def Let_def snd_convert_case)
  qed
next
  case False
  with assms show ?thesis
    by (simp add: build_model_content_def Let_def split: sum.splits)
qed

lemma build_result_evs:
  "snd (build_model_content E file evs) = snd (build_model_content E file [])"
  by (rule build_result_cong) simp_all

lemma try_body_model_calls:
  "model_calls (fst (try_body E file evs)) =
     model_calls evs @
     (case snd (build_model_content E file []) of
        Inl e \<Rightarrow> []
      | Inr mc \<Rightarrow> [(str ''gemini-1.5-flash'', mc, \<lparr>temperature = 0.1\<rparr>)])"
proof (cases "build_model_content E file (evs @ [FileRead])")
  case (Pair l r)
  then have l: "model_calls l = model_calls evs"
    using build_model_calls [of E "file" "evs @ [FileRead]"] by (simp add: model_calls_append)
  from Pair have r: "snd (build_model_content E file []) = r"
    using build_result_evs [of E "file" "evs @ [FileRead]"] by simp
  show ?thesis
    using Pair l
    by (cases r) (simp_all add: r try_body_def Let_def model_calls_append split: sum.splits)
qed

lemma except_clauses_model_calls:
  "model_calls (fst (except_clauses E evs response e)) = model_calls evs"
  by (simp add: except_clauses_def model_calls_append split: pyexn.splits option.splits sum.splits)

lemma analyze_model_calls:
  fixes E :: "('doc, 'page, 'pix, 'img, 'resp, 'json) env"
  shows "model_calls (fst (analyze_letter E file)) =
     (if content_type file \<in>
          {Some (str ''application/pdf''), Some (str ''image/jpeg''), Some (str ''image/png'')}
      then (case snd (build_model_content E file []) of
              Inl e \<Rightarrow> []
            | Inr mc \<Rightarrow> [(str ''gemini-1.5-flash'', mc, \<lparr>temperature = 0.1\<rparr>)])
      else [])"
proof -
  define evs0 :: "'img event list" where "evs0 = [Print (str ''Received file: '' @ format_opt (filename file) @
                         str '', Content-Type: '' @ format_opt (content_type file))]"
  have m0: "model_calls evs0 = []" by (simp add: evs0_def)
  obtain l resp r where t: "try_body E file evs0 = (l, resp, r)"
    by (cases "try_body E file evs0") auto
  have "model_calls (fst (case try_body E file evs0 of
                 (evs, response, Inr rendered) \<Rightarrow> (evs, JSONResponse rendered)
               | (evs, response, Inl e) \<Rightarrow> except_clauses E evs response e)) = model_calls l"
    by (cases r) (simp_all add: t except_clauses_model_calls)
  also have "model_calls l = (case snd (build_model_content E file []) of
              Inl e \<Rightarrow> []
            | Inr mc \<Rightarrow> [(str ''gemini-1.5-flash'', mc, \<lparr>temperature = 0.1\<rparr>)])"
    using try_body_model_calls [of E "file" evs0] by (simp add: t m0)
  finally show ?thesis
    unfolding analyze_letter_def Let_def evs0_def [symmetric]
    by (simp add: m0)
qed

lemma str_pdf_neq: "str ''image/jpeg'' \<noteq> str ''application/pdf''" "str ''image/png'' \<noteq> str ''application/pdf''"
  by (simp_all add: str_def)

lemma convert_pages_success:
  assumes "list_all2 (\<lambda>i img. \<exists>page pix b. load_page E doc i = Inr page \<and>
              get_pixmap E page 300 = Inr pix \<and> tobytes E pix (str ''png'') = Inr b \<and>
              image_open E b = Inr img) is imgs"
  shows "snd (convert_pages E doc n is mc evs) = Inr (mc @ map ImagePart imgs) \<and>
         pixmap_calls (fst (convert_pages E doc n is mc evs)) =
           pixmap_calls evs @ map (\<lambda>i. (i, 300)) is"
  using assms
proof (induction "is" imgs arbitrary: mc evs rule: list_all2_induct)
  case Nil
  then show ?case by simp
next
  case (Cons i "is" img imgs)
  then obtain page pix b where "load_page E doc i = Inr page"
     "get_pixmap E page 300 = Inr pix" "tobytes E pix (str ''png'') = Inr b"
     "image_open E b = Inr img" by blast
  then show ?case
    using Cons.IH by (simp add: Let_def pixmap_calls_append)
qed

lemma except_clauses_pixmap_calls:
  "pixmap_calls (fst (except_clauses E evs response e)) = pixmap_calls evs"
  by (simp add: except_clauses_def pixmap_calls_append split: pyexn.splits option.splits sum.splits)

lemma try_body_pixmap_calls:
  "pixmap_calls (fst (try_body E file evs)) =
     pixmap_calls (fst (build_model_content E file (evs @ [FileRead])))"
  by (cases "build_model_content E file (evs @ [FileRead])")
     (simp add: try_body_def Let_def pixmap_calls_append split: sum.splits)

lemma analyze_pixmap_calls:
  fixes E :: "('doc, 'page, 'pix, 'img, 'resp, 'json) env"
  assumes "content_type file \<in>
          {Some (str ''application/pdf''), Some (str ''image/jpeg''), Some (str ''image/png'')}"
  shows "pixmap_calls (fst (analyze_letter E file)) =
     pixmap_calls (fst (build_model_content E file
        [Print (str ''Received file: '' @ format_opt (filename file) @
                str '', Content-Type: '' @ format_opt (content_type file)), FileRead]))"
proof -
  define evs0 :: "'img event list" where "evs0 = [Print (str ''Received file: '' @ format_opt (filename file) @
                         str '', Content-Type: '' @ format_opt (content_type file))]"
  obtain l resp r where t: "try_body E file evs0 = (l, resp, r)"
    by (cases "try_body E file evs0") auto
  have "pixmap_calls (fst (case try_body E file evs0 of
                 (evs, response, Inr rendered) \<Rightarrow> (evs, JSONResponse rendered)
               | (evs, response, Inl e) \<Rightarrow> except_clauses E evs response e)) = pixmap_calls l"
    by (cases r) (simp_all add: t except_clauses_pixmap_calls)
  also have "pixmap_calls l = pixmap_calls (fst (build_model_content E file (evs0 @ [FileRead])))"
    using try_body_pixmap_calls [of E "file" evs0] by (simp add: t)
  finally show ?thesis
    using assms unfolding analyze_letter_def Let_def evs0_def [symmetric]
    by (simp add: evs0_def)
qed

lemma reached_model:
  fixes E :: "('doc, 'page, 'pix, 'img, 'resp, 'json) env"
  assumes "model_calls (fst (analyze_letter E file)) = [(nm, mc, cfg)]"
  shows "content_type file \<in>
          {Some (str ''application/pdf''), Some (str ''image/jpeg''), Some (str ''image/png'')}"
    and "snd (build_model_content E file evs) = Inr mc"
    and "nm = str ''gemini-1.5-flash''" and "cfg = \<lparr>temperature = 0.1\<rparr>"
proof -
  show ct: "content_type file \<in>
          {Some (str ''application/pdf''), Some (str ''image/jpeg''), Some (str ''image/png'')}"
    using assms unfolding analyze_model_calls by (simp split: if_splits)
  have *: "(case snd (build_model_content E file []) of
              Inl e \<Rightarrow> []
            | Inr mc \<Rightarrow> [(str ''gemini-1.5-flash'', mc, \<lparr>temperature = 0.1\<rparr>)]) = [(nm, mc, cfg)]"
    using assms ct unfolding analyze_model_calls by (simp split: if_splits)
  from * show "snd (build_model_content E file evs) = Inr mc"
    unfolding build_result_evs [of E "file" evs] by (simp split: sum.splits)
  from * show "nm = str ''gemini-1.5-flash''" by (simp split: sum.splits)
  from * show "cfg = \<lparr>temperature = 0.1\<rparr>" by (simp split: sum.splits)
qed

lemma try_body_after_model:
  assumes b: "build_model_content E file (evs @ [FileRead]) = (evs1, Inr mc)"
    and g: "generate_content E (str ''gemini-1.5-flash'') mc \<lparr>temperature = 0.1\<rparr> = Inr resp"
    and r: "response_text E resp = Inr raw"
  shows "\<exists>evs3. try_body E file evs =
           (case json_loads E (clean_response raw) of
              Inl e \<Rightarrow> (evs3 @ [JsonLoads (clean_response raw)], Some resp, Inl e)
            | Inr v \<Rightarrow>
                (evs3 @ [JsonLoads (clean_response raw),
                         Print (str ''Successfully parsed JSON response.''), JsonRender],
                 Some resp, json_render E v))"
proof (cases "json_loads E (clean_response raw)")
  case (Inl e)
  then show ?thesis
    by (simp add: try_body_def Let_def b g r)
next
  case (Inr v)
  then show ?thesis
    by (cases "json_render E v") (simp_all add: try_body_def Let_def b g r)
qed

lemma analyze_letter_after_model:
  fixes E :: "('doc, 'page, 'pix, 'img, 'resp, 'json) env"
  assumes ct: "content_type file \<in>
          {Some (str ''application/pdf''), Some (str ''image/jpeg''), Some (str ''image/png'')}"
    and bm: "snd (build_model_content E file []) = Inr mc"
    and g: "generate_content E (str ''gemini-1.5-flash'') mc \<lparr>temperature = 0.1\<rparr> = Inr resp"
    and r: "response_text E resp = Inr raw"
  shows "\<exists>evs3. analyze_letter E file =
           (case json_loads E (clean_response raw) of
              Inl e \<Rightarrow> except_clauses E (evs3 @ [JsonLoads (clean_response raw)]) (Some resp) e
            | Inr v \<Rightarrow>
                (case json_render E v of
                   Inl e \<Rightarrow> except_clauses E (evs3 @ [JsonLoads (clean_response raw),
                              Print (str ''Successfully parsed JSON response.''), JsonRender]) (Some resp) e
                 | Inr b \<Rightarrow> (evs3 @ [JsonLoads (clean_response raw),
                              Print (str ''Successfully parsed JSON response.''), JsonRender], JSONResponse b)))"
proof -
  define evs0 :: "'img event list" where "evs0 = [Print (str ''Received file: '' @ format_opt (filename file) @
                         str '', Content-Type: '' @ format_opt (content_type file))]"
  have "snd (build_model_content E file (evs0 @ [FileRead])) = Inr mc"
    using bm by (simp only: build_result_evs [of E "file" "evs0 @ [FileRead]"])
  then obtain evs1 where b: "build_model_content E file (evs0 @ [FileRead]) = (evs1, Inr mc)"
    by (cases "build_model_content E file (evs0 @ [FileRead])") simp
  obtain evs3 where t: "try_body E file evs0 =
           (case json_loads E (clean_response raw) of
              Inl e \<Rightarrow> (evs3 @ [JsonLoads (clean_response raw)], Some resp, Inl e)
            | Inr v \<Rightarrow>
                (evs3 @ [JsonLoads (clean_response raw),
                         Print (str ''Successfully parsed JSON response.''), JsonRender],
                 Some resp, json_render E v))"
    using try_body_after_model [OF b g r] by blast
  have a: "analyze_letter E file = (case try_body E file evs0 of
                 (evs, response, Inr rendered) \<Rightarrow> (evs, JSONResponse rendered)
               | (evs, response, Inl e) \<Rightarrow> except_clauses E evs response e)"
    using ct unfolding analyze_letter_def Let_def evs0_def [symmetric] by simp
  have "analyze_letter E file =
           (case json_loads E (clean_response raw) of
              Inl e \<Rightarrow> except_clauses E (evs3 @ [JsonLoads (clean_response raw)]) (Some resp) e
            | Inr v \<Rightarrow>
                (case json_render E v of
                   Inl e \<Rightarrow> except_clauses E (evs3 @ [JsonLoads (clean_response raw),
                              Print (str ''Successfully parsed JSON response.''), JsonRender]) (Some resp) e
                 | Inr b \<Rightarrow> (evs3 @ [JsonLoads (clean_response raw),
                              Print (str ''Successfully parsed JSON response.''), JsonRender], JSONResponse b)))"
  proof (cases "json_loads E (clean_response raw)")
    case (Inl e)
    then show ?thesis unfolding a t by simp
  next
    case (Inr v)
    then show ?thesis unfolding a t by (cases "json_render E v") simp_all
  qed
  then show ?thesis by blast
qed

lemma except_clauses_decode_error:
  assumes "response_text E resp = Inr raw"
  shows "except_clauses E evs (Some resp) (JSONDecodeError m) =
           (evs @ [ResponseText,
              Print (str ''ERROR: Failed to parse JSON from model response. Response was:'' @
                     [10] @ raw)],
            HTTPException 500 (str ''The AI model returned an invalid format.''))"
  using assms by (simp add: except_clauses_def)

lemma except_clauses_other:
  "except_clauses E evs response (OtherException m) =
     (evs @ [Print (str ''An unexpected error occurred: '' @ m)],
      HTTPException 500 (str ''An internal server error occurred: '' @ m))"
  by (simp add: except_clauses_def)

lemma analyze_letter_decode_error:
  fixes E :: "('doc, 'page, 'pix, 'img, 'resp, 'json) env"
  assumes "model_calls (fst (analyze_letter E file)) = [(nm, mc, cfg)]"
    and "generate_content E nm mc cfg = Inr resp"
    and "response_text E resp = Inr raw"
    and "json_loads E (clean_response raw) = Inl (JSONDecodeError m)"
  shows "\<exists>evs. analyze_letter E file =
           (evs @ [ResponseText,
              Print (str ''ERROR: Failed to parse JSON from model response. Response was:'' @
                     [10] @ raw)],
            HTTPException 500 (str ''The AI model returned an invalid format.''))"
proof -
  note rm = reached_model [OF assms(1)]
  obtain evs3 where "analyze_letter E file =
      except_clauses E (evs3 @ [JsonLoads (clean_response raw)]) (Some resp) (JSONDecodeError m)"
    using analyze_letter_after_model [OF rm(1) rm(2) [of "[]"] assms(2) [unfolded rm(3) rm(4)] assms(3)]
    by (auto simp add: assms(4))
  then show ?thesis
    by (simp only: except_clauses_decode_error [OF assms(3)]) blast
qed

section \<open>The example environment, evaluated\<close>

lemma clean_oops: "clean_response (str ''oops'') = str ''oops''"
  by (simp add: clean_response_def strip_def isspace_def str_def replace_Cons replace_Nil)

lemma clean_braces: "clean_response (str ''{}'') = str ''{}''"
  by (simp add: clean_response_def strip_def isspace_def str_def replace_Cons replace_Nil)

lemma example_loads_oops:
  "json_loads (example_env r) (str ''oops'') = Inl (JSONDecodeError (str ''Expecting value''))"
  by (simp add: example_env_def json_trim_def json_ws_def str_def)

lemma example_loads_braces:
  "json_loads (example_env r) (str ''{}'') = Inr (str ''{}'')"
  by (simp add: example_env_def json_trim_def json_ws_def str_def)

lemma example_image_calls:
  "model_calls (fst (analyze_letter (example_env r)
      \<lparr>filename = fn, content_type = Some (str ''image/png''), body = [137, 80]\<rparr>)) =
   [(str ''gemini-1.5-flash'', [TextPart SYSTEM_PROMPT, ImagePart [137, 80]], \<lparr>temperature = 0.1\<rparr>)]"
  by (simp add: analyze_model_calls build_model_content_def Let_def example_env_def str_pdf_neq)

lemma example_empty_pdf_calls:
  "model_calls (fst (analyze_letter (example_env r)
      \<lparr>filename = fn, content_type = Some (str ''application/pdf''), body = str ''%PDF''\<rparr>)) =
   [(str ''gemini-1.5-flash'', [TextPart SYSTEM_PROMPT], \<lparr>temperature = 0.1\<rparr>)]"
  by (simp add: analyze_model_calls build_model_content_def Let_def example_env_def str_def)

lemma clean_truncated: "clean_response (str ''{\"category\": '') = str ''{\"category\":''"
  by (simp add: clean_response_def strip_def isspace_def str_def replace_Cons replace_Nil)

lemma example_loads_truncated:
  "json_loads (example_env r) (str ''{\"category\":'') = Inl (JSONDecodeError (str ''Expecting value''))"
  by (simp add: example_env_def json_trim_def json_ws_def str_def)

lemma example_model:
  "generate_content (example_env r) nm mc cfg = Inr r" "response_text (example_env r) x = Inr x"
  "json_render (example_env r) v = Inr v"
  by (simp_all add: example_env_def)

lemma clean_nan: "clean_response (str ''NaN'') = str ''NaN''"
  by (simp add: clean_response_def strip_def isspace_def str_def replace_Cons replace_Nil)

lemma lenient_loads_nan: "json_loads (lenient_env r) (str ''NaN'') = Inr (str ''NaN'')"
  by (simp add: lenient_env_def json_trim_def json_ws_def str_def)

section \<open>Content-type check\<close>

text \<open>
  C2. A request whose declared content type is none of \<^verbatim>\<open>application/pdf\<close>,
  \<^verbatim>\<open>image/jpeg\<close>, \<^verbatim>\<open>image/png\<close> (a missing content type included) ends with
  \<^verbatim>\<open>HTTPException(400)\<close>, and the only thing the handler has done by then is to print
  its first log line: the body is not read, no document or image is opened, the model is
  not called.
\<close>

theorem unsupported_type_rejected:
  assumes "content_type file \<notin>
             {Some (str ''application/pdf''), Some (str ''image/jpeg''), Some (str ''image/png'')}"
  shows "analyze_letter E file =
           ([Print (str ''Received file: '' @ format_opt (filename file) @
                    str '', Content-Type: '' @ format_opt (content_type file))],
            HTTPException 400 (str ''Invalid file type.''))"
  using assms by (simp add: analyze_letter_def Let_def)

theorem unsupported_type_rejected_witness:
  "analyze_letter (example_env [])
     \<lparr>filename = Some (str ''notes.txt''), content_type = Some (str ''text/plain''),
      body = str ''hello''\<rparr> =
   ([Print (str ''Received file: notes.txt, Content-Type: text/plain'')],
    HTTPException 400 (str ''Invalid file type.''))"
  using unsupported_type_rejected [of "\<lparr>filename = Some (str ''notes.txt''),
      content_type = Some (str ''text/plain''), body = str ''hello''\<rparr>" "example_env []"]
  by (simp add: str_def)

section \<open>The model call\<close>

text \<open>
  C8. A request for which a payload is built (a supported content type, and the document
  or image converted without an exception) calls the model exactly once, with that
  payload, on \<^verbatim>\<open>gemini-1.5-flash\<close> with a generation configuration whose temperature is
  0.1. Nothing is assumed of the call itself: whether it returns or raises, there is no
  second attempt. A request for which no payload is built does not call the model.
\<close>

theorem model_called_exactly_once:
  fixes E :: "('doc, 'page, 'pix, 'img, 'resp, 'json) env"
  shows "(content_type file \<in>
            {Some (str ''application/pdf''), Some (str ''image/jpeg''), Some (str ''image/png'')} \<longrightarrow>
          snd (build_model_content E file evs) = Inr payload \<longrightarrow>
          model_calls (fst (analyze_letter E file)) =
            [(str ''gemini-1.5-flash'', payload, \<lparr>temperature = 0.1\<rparr>)]) \<and>
         (content_type file \<notin>
            {Some (str ''application/pdf''), Some (str ''image/jpeg''), Some (str ''image/png'')} \<or>
          snd (build_model_content E file evs) = Inl e \<longrightarrow>
          model_calls (fst (analyze_letter E file)) = [])"
  unfolding build_result_evs [of E "file" evs] by (auto simp add: analyze_model_calls)

theorem model_called_exactly_once_witness:
  "model_calls (fst (analyze_letter
      ((example_env [])\<lparr>generate_content :=
          (\<lambda>name parts cfg. Inl (OtherException (str ''503 Service Unavailable'')))\<rparr>)
      \<lparr>filename = None, content_type = Some (str ''image/png''), body = [137, 80]\<rparr>)) =
     [(str ''gemini-1.5-flash'', [TextPart SYSTEM_PROMPT, ImagePart [137, 80]],
       \<lparr>temperature = 0.1\<rparr>)] \<and>
   model_calls (fst (analyze_letter (example_env [])
      \<lparr>filename = None, content_type = Some (str ''image/png''), body = []\<rparr>)) = []"
  using model_called_exactly_once [of
      "\<lparr>filename = None, content_type = Some (str ''image/png''), body = [137, 80]\<rparr>"
      "(example_env [])\<lparr>generate_content :=
          (\<lambda>name parts cfg. Inl (OtherException (str ''503 Service Unavailable'')))\<rparr>"
      "[]" "[TextPart SYSTEM_PROMPT, ImagePart [137, 80]]"]
    model_called_exactly_once [of
      "\<lparr>filename = None, content_type = Some (str ''image/png''), body = []\<rparr>"
      "example_env []" "[]" _ "OtherException (str ''cannot identify image file'')"]
  by (simp add: build_model_content_def Let_def example_env_def str_pdf_neq)

text \<open>
  C10. The payload sent to the model is a function of the uploaded bytes, the declared
  content type and the document and image libraries alone: two runs on uploads with the
  same bytes and content type (the file names may differ), in environments that agree on
  those libraries (the model, the decoder and the renderer may differ), make the same
  model calls with the same payloads.
\<close>

theorem payload_deterministic:
  assumes "body file = body file'" "content_type file = content_type file'"
    and "fitz_open E = fitz_open E'" "page_count E = page_count E'"
    and "load_page E = load_page E'" "get_pixmap E = get_pixmap E'"
    and "tobytes E = tobytes E'" "image_open E = image_open E'"
  shows "model_calls (fst (analyze_letter E file)) = model_calls (fst (analyze_letter E' file'))"
proof -
  have "snd (build_model_content E file []) = snd (build_model_content E' file' [])"
    using assms by (intro build_result_cong) simp_all
  then show ?thesis
    using assms(2) by (simp add: analyze_model_calls)
qed

theorem payload_deterministic_witness:
  "model_calls (fst (analyze_letter (example_env (str ''{}''))
      \<lparr>filename = Some (str ''a.png''), content_type = Some (str ''image/png''),
       body = str ''xyz''\<rparr>)) =
   model_calls (fst (analyze_letter (example_env (str ''no json''))
      \<lparr>filename = None, content_type = Some (str ''image/png''), body = str ''xyz''\<rparr>))"
  using payload_deterministic [of
      "\<lparr>filename = Some (str ''a.png''), content_type = Some (str ''image/png''),
        body = str ''xyz''\<rparr>"
      "\<lparr>filename = None, content_type = Some (str ''image/png''), body = str ''xyz''\<rparr>"
      "example_env (str ''{}'')" "example_env (str ''no json'')"]
  by (simp add: example_env_def)

section \<open>The payload\<close>

text \<open>
  C6. For an upload declared \<^verbatim>\<open>image/jpeg\<close> or \<^verbatim>\<open>image/png\<close> whose bytes the image
  library decodes to \<open>img\<close>, the model is called once with the payload made of the
  instruction text followed by exactly that one image.
\<close>

theorem single_image_payload:
  assumes "content_type file = Some (str ''image/jpeg'') \<or> content_type file = Some (str ''image/png'')"
    and "image_open E (body file) = Inr img"
  shows "model_calls (fst (analyze_letter E file)) =
           [(str ''gemini-1.5-flash'', [TextPart SYSTEM_PROMPT, ImagePart img], \<lparr>temperature = 0.1\<rparr>)]"
proof -
  have "snd (build_model_content E file []) = Inr [TextPart SYSTEM_PROMPT, ImagePart img]"
    using assms by (auto simp add: build_model_content_def Let_def str_pdf_neq)
  then show ?thesis
    using assms(1) by (auto simp add: analyze_model_calls)
qed

theorem single_image_payload_witness:
  "model_calls (fst (analyze_letter (example_env (str ''{}''))
      \<lparr>filename = Some (str ''scan.jpg''), content_type = Some (str ''image/jpeg''),
       body = [255, 216, 255]\<rparr>)) =
     [(str ''gemini-1.5-flash'', [TextPart SYSTEM_PROMPT, ImagePart [255, 216, 255]],
       \<lparr>temperature = 0.1\<rparr>)]"
  using single_image_payload [of "\<lparr>filename = Some (str ''scan.jpg''),
      content_type = Some (str ''image/jpeg''), body = [255, 216, 255]\<rparr>"
      "example_env (str ''{}'')" "[255, 216, 255]"]
  by (simp add: example_env_def)

text \<open>
  C5. For a PDF upload that the document library opens, and whose pages all load, render
  at 300 DPI, serialise to PNG and decode (to the images \<open>imgs\<close>, one per page index in
  increasing order), the model is called once with the payload made of the instruction
  text followed by those images in page order; there are as many images as pages, and the
  renderings requested are exactly one per page, in page order, each at 300 DPI. This holds
  for every page count, the claim's \<open>n \<ge> 1\<close> included.
\<close>

theorem pdf_payload_in_page_order:
  assumes "content_type file = Some (str ''application/pdf'')"
    and "fitz_open E (body file) = Inr doc"
    and "list_all2 (\<lambda>i img. \<exists>page pix b. load_page E doc i = Inr page \<and>
              get_pixmap E page 300 = Inr pix \<and> tobytes E pix (str ''png'') = Inr b \<and>
              image_open E b = Inr img) [0 ..< page_count E doc] imgs"
  shows "model_calls (fst (analyze_letter E file)) =
           [(str ''gemini-1.5-flash'', TextPart SYSTEM_PROMPT # map ImagePart imgs, \<lparr>temperature = 0.1\<rparr>)] \<and>
         length imgs = page_count E doc \<and>
         pixmap_calls (fst (analyze_letter E file)) = map (\<lambda>i. (i, 300)) [0 ..< page_count E doc]"
proof -
  note cp = convert_pages_success [OF assms(3)]
  have "snd (build_model_content E file []) = Inr (TextPart SYSTEM_PROMPT # map ImagePart imgs)"
    using assms(1,2) cp [of "page_count E doc" "[TextPart SYSTEM_PROMPT]"]
    by (simp add: build_model_content_def Let_def snd_convert_case)
  then have 1: "model_calls (fst (analyze_letter E file)) =
           [(str ''gemini-1.5-flash'', TextPart SYSTEM_PROMPT # map ImagePart imgs, \<lparr>temperature = 0.1\<rparr>)]"
    using assms(1) by (simp add: analyze_model_calls)
  have 2: "length imgs = page_count E doc"
    using list_all2_lengthD [OF assms(3)] by simp
  have fc: "fst (case convert_pages E d n is mc l of
            (l2, Inl e) \<Rightarrow> (l2, Inl e)
          | (l2, Inr m) \<Rightarrow> (l2 @ [Print p], Inr m)) = fst (convert_pages E d n is mc l) @ [Print p]"
    if "snd (convert_pages E d n is mc l) = Inr x" for d n "is" mc l p x
    using that by (cases "convert_pages E d n is mc l") (auto split: sum.splits)
  have 3: "pixmap_calls (fst (analyze_letter E file)) = map (\<lambda>i. (i, 300)) [0 ..< page_count E doc]"
    using assms(1,2) cp [of "page_count E doc" "[TextPart SYSTEM_PROMPT]"]
    by (simp add: analyze_pixmap_calls build_model_content_def Let_def fc pixmap_calls_append)
  from 1 2 3 show ?thesis by simp
qed

theorem pdf_payload_in_page_order_witness:
  "model_calls (fst (analyze_letter (example_env (str ''{}''))
      \<lparr>filename = Some (str ''letter.pdf''), content_type = Some (str ''application/pdf''),
       body = str ''%PDFab''\<rparr>)) =
     [(str ''gemini-1.5-flash'', [TextPart SYSTEM_PROMPT, ImagePart [97, 300], ImagePart [98, 300]],
       \<lparr>temperature = 0.1\<rparr>)] \<and>
   pixmap_calls (fst (analyze_letter (example_env (str ''{}''))
      \<lparr>filename = Some (str ''letter.pdf''), content_type = Some (str ''application/pdf''),
       body = str ''%PDFab''\<rparr>)) = [(0, 300), (1, 300)]"
  using pdf_payload_in_page_order [of "\<lparr>filename = Some (str ''letter.pdf''),
      content_type = Some (str ''application/pdf''), body = str ''%PDFab''\<rparr>"
      "example_env (str ''{}'')" "[97, 98]" "[[97, 300], [98, 300]]"]
  by (simp add: example_env_def str_def upt_rec)

text \<open>
  C1 (as the code has it). The handler has no check for a PDF without pages. For a PDF
  upload that the document library opens and that has zero pages, the model is called
  exactly once, with a payload that holds the instruction text and no image; and whenever
  the model answers, its text decodes and the result renders, the request ends with the
  JSON response.
\<close>

theorem empty_pdf_reaches_model:
  fixes E :: "('doc, 'page, 'pix, 'img, 'resp, 'json) env"
  assumes "content_type file = Some (str ''application/pdf'')"
    and "fitz_open E (body file) = Inr doc"
    and "page_count E doc = 0"
  shows "model_calls (fst (analyze_letter E file)) =
           [(str ''gemini-1.5-flash'', [TextPart SYSTEM_PROMPT], \<lparr>temperature = 0.1\<rparr>)] \<and>
         (\<forall>resp raw v b.
            generate_content E (str ''gemini-1.5-flash'') [TextPart SYSTEM_PROMPT]
              \<lparr>temperature = 0.1\<rparr> = Inr resp \<and>
            response_text E resp = Inr raw \<and> json_loads E (clean_response raw) = Inr v \<and>
            json_render E v = Inr b \<longrightarrow>
            snd (analyze_letter E file) = JSONResponse b)"
proof -
  have ct: "content_type file \<in>
          {Some (str ''application/pdf''), Some (str ''image/jpeg''), Some (str ''image/png'')}"
    using assms(1) by simp
  have b: "snd (build_model_content E file []) = Inr [TextPart SYSTEM_PROMPT]"
    using assms by (simp add: build_model_content_def Let_def)
  have 1: "model_calls (fst (analyze_letter E file)) =
           [(str ''gemini-1.5-flash'', [TextPart SYSTEM_PROMPT], \<lparr>temperature = 0.1\<rparr>)]"
    using ct b by (simp add: analyze_model_calls)
  have 2: "snd (analyze_letter E file) = JSONResponse b"
    if "generate_content E (str ''gemini-1.5-flash'') [TextPart SYSTEM_PROMPT]
              \<lparr>temperature = 0.1\<rparr> = Inr resp"
      "response_text E resp = Inr raw" "json_loads E (clean_response raw) = Inr v"
      "json_render E v = Inr b" for resp raw v b
    using analyze_letter_after_model [OF ct b that(1) that(2)] that(3,4) by auto
  from 1 2 show ?thesis by blast
qed

theorem empty_pdf_reaches_model_witness:
  "model_calls (fst (analyze_letter (example_env (str ''oops''))
      \<lparr>filename = None, content_type = Some (str ''application/pdf''), body = str ''%PDF''\<rparr>)) =
     [(str ''gemini-1.5-flash'', [TextPart SYSTEM_PROMPT], \<lparr>temperature = 0.1\<rparr>)] \<and>
   snd (analyze_letter (example_env (str ''{}''))
      \<lparr>filename = None, content_type = Some (str ''application/pdf''), body = str ''%PDF''\<rparr>) =
     JSONResponse (str ''{}'')"
proof -
  have 1: "fitz_open (example_env r) (str ''%PDF'') = Inr []" "page_count (example_env r) [] = 0" for r
    by (simp_all add: example_env_def str_def)
  show ?thesis
    using empty_pdf_reaches_model [of "\<lparr>filename = None,
        content_type = Some (str ''application/pdf''), body = str ''%PDF''\<rparr>"
        "example_env (str ''oops'')" "[]"]
      empty_pdf_reaches_model [of "\<lparr>filename = None,
        content_type = Some (str ''application/pdf''), body = str ''%PDF''\<rparr>"
        "example_env (str ''{}'')" "[]"]
    by (simp add: 1 example_model clean_braces example_loads_braces)
qed

text \<open>
  C1 as claimed (a zero-page PDF ends in a failure and the model is not called with an
  empty image sequence) fails: in the example environment the zero-page document
  \<^verbatim>\<open>%PDF\<close> is sent to the model with the prompt alone, and the answer \<^verbatim>\<open>{}\<close> is
  returned as a JSON response.
\<close>

theorem empty_pdf_succeeds:
  "fitz_open (example_env (str ''{}'')) (str ''%PDF'') = Inr [] \<and>
   page_count (example_env (str ''{}'')) [] = 0 \<and>
   snd (analyze_letter (example_env (str ''{}''))
      \<lparr>filename = Some (str ''empty.pdf''), content_type = Some (str ''application/pdf''),
       body = str ''%PDF''\<rparr>) = JSONResponse (str ''{}'') \<and>
   model_calls (fst (analyze_letter (example_env (str ''{}''))
      \<lparr>filename = Some (str ''empty.pdf''), content_type = Some (str ''application/pdf''),
       body = str ''%PDF''\<rparr>)) =
     [(str ''gemini-1.5-flash'', [TextPart SYSTEM_PROMPT], \<lparr>temperature = 0.1\<rparr>)]"
proof -
  let ?E = "example_env (str ''{}'')"
  let ?f = "\<lparr>filename = Some (str ''empty.pdf''), content_type = Some (str ''application/pdf''),
       body = str ''%PDF''\<rparr>"
  have 1: "fitz_open ?E (str ''%PDF'') = Inr []" "page_count ?E [] = 0"
    by (simp_all add: example_env_def str_def)
  have ct: "content_type ?f \<in>
          {Some (str ''application/pdf''), Some (str ''image/jpeg''), Some (str ''image/png'')}"
    by simp
  have b: "snd (build_model_content ?E ?f []) = Inr [TextPart SYSTEM_PROMPT]"
    using 1 by (simp add: build_model_content_def Let_def)
  have 2: "snd (analyze_letter ?E ?f) = JSONResponse (str ''{}'')"
    using analyze_letter_after_model [OF ct b example_model(1) example_model(2)]
    by (auto simp add: clean_braces example_loads_braces example_model)
  have 3: "model_calls (fst (analyze_letter ?E ?f)) =
     [(str ''gemini-1.5-flash'', [TextPart SYSTEM_PROMPT], \<lparr>temperature = 0.1\<rparr>)]"
    using ct b by (simp add: analyze_model_calls)
  from 1 2 3 show ?thesis by simp
qed

section \<open>Decode failures\<close>

text \<open>
  C4 (as the code has it). The handler leaves it to \<^verbatim>\<open>json.loads\<close> to say what is
  valid. Take a request that reached the model call, whose response has the text \<open>raw\<close>,
  and let \<^verbatim>\<open>json.loads\<close> raise on the stripped and de-fenced text. Then no value is
  returned and the request ends with status 500: with the detail "The AI model returned an
  invalid format." when the exception is a \<^verbatim>\<open>JSONDecodeError\<close>, and with the generic
  detail that carries the exception text when it is any other exception.
\<close>

theorem decoder_failure_is_500:
  fixes E :: "('doc, 'page, 'pix, 'img, 'resp, 'json) env"
  assumes "model_calls (fst (analyze_letter E file)) = [(nm, mc, cfg)]"
    and "generate_content E nm mc cfg = Inr resp"
    and "response_text E resp = Inr raw"
    and "json_loads E (clean_response raw) = Inl e"
  shows "status_code (snd (analyze_letter E file)) = 500 \<and>
         (\<forall>m. e = JSONDecodeError m \<longrightarrow>
            snd (analyze_letter E file) =
              HTTPException 500 (str ''The AI model returned an invalid format.'')) \<and>
         (\<forall>m. e = OtherException m \<longrightarrow>
            snd (analyze_letter E file) =
              HTTPException 500 (str ''An internal server error occurred: '' @ m))"
proof -
  note rm = reached_model [OF assms(1)]
  obtain evs3 where a: "analyze_letter E file =
      except_clauses E (evs3 @ [JsonLoads (clean_response raw)]) (Some resp) e"
    using analyze_letter_after_model [OF rm(1) rm(2) [of "[]"] assms(2) [unfolded rm(3) rm(4)] assms(3)]
    by (auto simp add: assms(4))
  show ?thesis
  proof (cases e)
    case (JSONDecodeError m)
    then show ?thesis
      unfolding a by (simp add: except_clauses_decode_error [OF assms(3)])
  next
    case (OtherException m)
    then show ?thesis
      unfolding a by (simp add: except_clauses_other)
  qed
qed

theorem decoder_failure_is_500_witness:
  "snd (analyze_letter (example_env (str ''oops''))
      \<lparr>filename = None, content_type = Some (str ''image/png''), body = [137, 80]\<rparr>) =
     HTTPException 500 (str ''The AI model returned an invalid format.'') \<and>
   snd (analyze_letter
      ((example_env (str ''[[[[''))\<lparr>json_loads :=
          (\<lambda>s. Inl (OtherException (str ''maximum recursion depth exceeded'')))\<rparr>)
      \<lparr>filename = None, content_type = Some (str ''image/png''), body = [137, 80]\<rparr>) =
     HTTPException 500
       (str ''An internal server error occurred: '' @ str ''maximum recursion depth exceeded'')"
proof -
  let ?f = "\<lparr>filename = None, content_type = Some (str ''image/png''), body = [137, 80]\<rparr>"
  let ?R = "(example_env (str ''[[[[''))\<lparr>json_loads :=
          (\<lambda>s. Inl (OtherException (str ''maximum recursion depth exceeded'')))\<rparr>"
  have c: "model_calls (fst (analyze_letter ?R ?f)) =
     [(str ''gemini-1.5-flash'', [TextPart SYSTEM_PROMPT, ImagePart [137, 80]],
       \<lparr>temperature = 0.1\<rparr>)]"
    by (simp add: analyze_model_calls build_model_content_def Let_def example_env_def str_pdf_neq)
  have 1: "snd (analyze_letter (example_env (str ''oops'')) ?f) =
     HTTPException 500 (str ''The AI model returned an invalid format.'')"
    using decoder_failure_is_500 [OF example_image_calls [of "str ''oops''" None],
      of "str ''oops''" "str ''oops''" "JSONDecodeError (str ''Expecting value'')"]
    by (simp add: clean_oops example_loads_oops example_model)
  have 2: "snd (analyze_letter ?R ?f) =
     HTTPException 500
       (str ''An internal server error occurred: '' @ str ''maximum recursion depth exceeded'')"
    using decoder_failure_is_500 [OF c, of "str ''[[[[''" "str ''[[[[''"
      "OtherException (str ''maximum recursion depth exceeded'')"]
    by (simp add: example_env_def)
  from 1 2 show ?thesis by simp
qed

text \<open>
  C4 as claimed (every text that is not valid JSON makes the decoder fail and ends in the
  formatting-failure response) fails. The JSON grammar has no literal \<^verbatim>\<open>NaN\<close>, yet
  \<^verbatim>\<open>json.loads\<close> accepts it; with such a decoder the reply \<^verbatim>\<open>NaN\<close> is handed to the
  decoder unchanged and decoded, the handler prints that the response was parsed, and the
  request ends in the generic internal-error response once the renderer refuses the value.
\<close>

theorem nan_is_decoded:
  "clean_response (str ''NaN'') = str ''NaN'' \<and>
   json_loads (lenient_env (str ''NaN'')) (clean_response (str ''NaN'')) = Inr (str ''NaN'') \<and>
   snd (analyze_letter (lenient_env (str ''NaN''))
      \<lparr>filename = None, content_type = Some (str ''image/png''), body = [137, 80]\<rparr>) =
     HTTPException 500 (str ''An internal server error occurred: '' @
                        str ''Out of range float values are not JSON compliant'') \<and>
   snd (analyze_letter (lenient_env (str ''NaN''))
      \<lparr>filename = None, content_type = Some (str ''image/png''), body = [137, 80]\<rparr>) \<noteq>
     HTTPException 500 (str ''The AI model returned an invalid format.'') \<and>
   Print (str ''Successfully parsed JSON response.'') \<in>
     set (fst (analyze_letter (lenient_env (str ''NaN''))
      \<lparr>filename = None, content_type = Some (str ''image/png''), body = [137, 80]\<rparr>))"
proof -
  let ?E = "lenient_env (str ''NaN'')"
  let ?f = "\<lparr>filename = None, content_type = Some (str ''image/png''), body = [137, 80]\<rparr>"
  have ct: "content_type ?f \<in>
          {Some (str ''application/pdf''), Some (str ''image/jpeg''), Some (str ''image/png'')}"
    by simp
  have b: "snd (build_model_content ?E ?f []) = Inr [TextPart SYSTEM_PROMPT, ImagePart [137, 80]]"
    by (simp add: build_model_content_def Let_def lenient_env_def example_env_def str_pdf_neq)
  have g: "generate_content ?E (str ''gemini-1.5-flash'') [TextPart SYSTEM_PROMPT, ImagePart [137, 80]]
             \<lparr>temperature = 0.1\<rparr> = Inr (str ''NaN'')"
    by (simp add: lenient_env_def example_env_def)
  have r: "response_text ?E (str ''NaN'') = Inr (str ''NaN'')"
    by (simp add: lenient_env_def example_env_def)
  have j: "json_render ?E (str ''NaN'') =
      Inl (OtherException (str ''Out of range float values are not JSON compliant''))"
    by (simp add: lenient_env_def)
  obtain evs3 where a: "analyze_letter ?E ?f =
      except_clauses ?E (evs3 @ [JsonLoads (clean_response (str ''NaN'')),
         Print (str ''Successfully parsed JSON response.''), JsonRender]) (Some (str ''NaN''))
        (OtherException (str ''Out of range float values are not JSON compliant''))"
    using analyze_letter_after_model [OF ct b g r]
    by (auto simp add: clean_nan lenient_loads_nan j)
  have d: "str ''An internal server error occurred: '' @
             str ''Out of range float values are not JSON compliant'' \<noteq>
           str ''The AI model returned an invalid format.''"
    by (simp add: str_def)
  show ?thesis
    unfolding a except_clauses_other using d
    by (simp add: clean_nan lenient_loads_nan)
qed

text \<open>
  C7. On a decode failure the raw model text goes to the server's output and not to the
  caller: any two requests that end in a decode failure, whatever their uploads,
  environments and raw model texts, end with the same outcome (so the error body carries
  nothing of the raw text), while the last line printed is the error line that ends with
  the raw text.
\<close>

theorem raw_text_logged_not_returned:
  fixes E :: "('doc, 'page, 'pix, 'img, 'resp, 'json) env"
    and E' :: "('doc2, 'page2, 'pix2, 'img2, 'resp2, 'json2) env"
  assumes "model_calls (fst (analyze_letter E file)) = [(nm, mc, cfg)]"
    and "generate_content E nm mc cfg = Inr resp"
    and "response_text E resp = Inr raw"
    and "json_loads E (clean_response raw) = Inl (JSONDecodeError m)"
    and "model_calls (fst (analyze_letter E' file')) = [(nm', mc', cfg')]"
    and "generate_content E' nm' mc' cfg' = Inr resp'"
    and "response_text E' resp' = Inr raw'"
    and "json_loads E' (clean_response raw') = Inl (JSONDecodeError m')"
  shows "snd (analyze_letter E file) = snd (analyze_letter E' file') \<and>
         last (fst (analyze_letter E file)) =
           Print (str ''ERROR: Failed to parse JSON from model response. Response was:'' @
                  [10] @ raw)"
  using analyze_letter_decode_error [OF assms(1-4)] analyze_letter_decode_error [OF assms(5-8)]
  by auto

theorem raw_text_logged_not_returned_witness:
  "snd (analyze_letter (example_env (str ''oops''))
      \<lparr>filename = None, content_type = Some (str ''image/png''), body = [137, 80]\<rparr>) =
   snd (analyze_letter (example_env (str ''{\"category\": ''))
      \<lparr>filename = Some (str ''empty.pdf''), content_type = Some (str ''application/pdf''),
       body = str ''%PDF''\<rparr>) \<and>
   last (fst (analyze_letter (example_env (str ''oops''))
      \<lparr>filename = None, content_type = Some (str ''image/png''), body = [137, 80]\<rparr>)) =
     Print (str ''ERROR: Failed to parse JSON from model response. Response was:'' @ [10] @
            str ''oops'')"
  using raw_text_logged_not_returned [OF example_image_calls [of "str ''oops''" None] _ _ _
      example_empty_pdf_calls [of "str ''{\"category\": ''" "Some (str ''empty.pdf'')"],
      of "str ''oops''" "str ''oops''" "str ''Expecting value''"
         "str ''{\"category\": ''" "str ''{\"category\": ''" "str ''Expecting value''"]
  by (simp add: clean_oops example_loads_oops clean_truncated example_loads_truncated example_model)

section \<open>The response decoder\<close>

text \<open>
  C9. The text handed to \<^verbatim>\<open>json.loads\<close> never contains three backticks in a row, nor
  the marker \<^verbatim>\<open>```json\<close>, wherever they stood in the response; so a response that
  contains three backticks in a row anywhere (inside a JSON string value, for one) is not
  parsed as it was sent, nor as it was after stripping the surrounding whitespace.
\<close>

theorem fences_removed_everywhere:
  "\<not> sublist (str ''```'') (clean_response raw) \<and>
   \<not> sublist (str ''```json'') (clean_response raw) \<and>
   (sublist (str ''```'') raw \<longrightarrow> clean_response raw \<noteq> raw \<and> clean_response raw \<noteq> strip raw)"
proof -
  have 1: "\<not> sublist (str ''```'') (clean_response raw)"
    unfolding bt3_str by (rule clean_response_no_fence)
  have "sublist (str ''```'') (str ''```json'')"
    unfolding bt3_str btjson_str by (rule sublist_append_rightI)
  then have 2: "\<not> sublist (str ''```json'') (clean_response raw)"
    using 1 sublist_order.order.trans by blast
  have 3: "clean_response raw \<noteq> raw \<and> clean_response raw \<noteq> strip raw" if "sublist (str ''```'') raw"
    using that strip_keeps_fence [of raw] 1 unfolding bt3_str by auto
  from 1 2 3 show ?thesis by blast
qed

theorem fences_removed_everywhere_witness:
  "sublist (str ''```'') (str ''{\"a\": \"x```y\"}'') \<and>
   clean_response (str ''{\"a\": \"x```y\"}'') = str ''{\"a\": \"xy\"}'' \<and>
   clean_response (str ''{\"a\": \"x```y\"}'') \<noteq> str ''{\"a\": \"x```y\"}''"
proof -
  have h: "sublist (str ''```'') (str ''{\"a\": \"x```y\"}'')"
    by (simp add: str_def sublist_Cons_right)
  have c: "clean_response (str ''{\"a\": \"x```y\"}'') = str ''{\"a\": \"xy\"}''"
    by (simp add: clean_response_def strip_def isspace_def str_def replace_Cons replace_Nil)
  from fences_removed_everywhere [of "str ''{\"a\": \"x```y\"}''"] h c show ?thesis
    by simp
qed

text \<open>
  C3. Let \<^verbatim>\<open>json.loads\<close> behave as a JSON decoder does about whitespace
  (\<open>json_decoder\<close>), and let \<open>t\<close> be a text that it decodes to \<open>v\<close> and that holds no
  three backticks in a row. Then decoding \<open>t\<close> as it is and decoding \<open>t\<close> between an
  opening \<^verbatim>\<open>```json\<close> fence and a closing \<^verbatim>\<open>```\<close> fence, each separated from
  \<open>t\<close> by any JSON whitespace (a line feed, as Markdown has it, or nothing at all), both
  give \<open>v\<close>.
\<close>

theorem fenced_json_decodes_alike:
  assumes "json_decoder (json_loads E)"
    and "json_loads E t = Inr v"
    and "\<not> sublist (str ''```'') t"
    and "\<forall>c\<in>set ws1. json_ws c" "\<forall>c\<in>set ws2. json_ws c"
  shows "json_loads E (clean_response t) = Inr v \<and>
         json_loads E (clean_response (str ''```json'' @ ws1 @ t @ ws2 @ str ''```'')) = Inr v"
proof -
  note nf = assms(3) [unfolded bt3_str]
  note d = json_decoder_strip [OF assms(1,2)]
  have 1: "json_loads E (clean_response t) = Inr v"
    using d by (simp add: clean_response_unfenced [OF nf])
  have "json_loads E (json_trim (ws1 @ t @ ws2)) = Inr v"
    using d(2) by (simp add: json_trim_padded [OF assms(4,5)])
  then have "json_loads E (ws1 @ t @ ws2) = Inr v"
    using assms(1) unfolding json_decoder_def by blast
  then have 2: "json_loads E (clean_response (str ''```json'' @ ws1 @ t @ ws2 @ str ''```'')) = Inr v"
    by (simp only: clean_response_fenced [OF nf assms(4,5)])
  from 1 2 show ?thesis by simp
qed

theorem fenced_json_decodes_alike_witness:
  "json_loads (example_env []) (clean_response (str ''{\"a\": 1}'')) = Inr (str ''{\"a\": 1}'') \<and>
   json_loads (example_env [])
     (clean_response (str ''```json'' @ [10] @ str ''{\"a\": 1}'' @ [10] @ str ''```'')) =
     Inr (str ''{\"a\": 1}'')"
proof -
  have l: "json_loads (example_env []) (str ''{\"a\": 1}'') = Inr (str ''{\"a\": 1}'')"
    by (simp add: example_env_def json_trim_def json_ws_def str_def)
  have n: "\<not> sublist (str ''```'') (str ''{\"a\": 1}'')"
    by (simp add: str_def sublist_Cons_right)
  have w: "\<forall>c\<in>set [10]. json_ws c"
    by (simp add: json_ws_def)
  from fenced_json_decodes_alike [OF example_json_decoder l n w w] show ?thesis .
qed

end
